theory Spec2Isabelle
  imports Complex_Main
begin


section \<open>JavaScript values as the controllers see them\<close>

text \<open>
  The controllers receive parsed JSON (request bodies, documents handed back by the
  services) and read and write properties on it. A value is one of the JSON shapes
  plus \<open>undefined\<close>. Numbers of a JSON text are finite, so a number is a rational;
  an object is the list of its own properties in insertion order.
\<close>

datatype jsval =
    JUndefined
  | JNull
  | JBool bool
  | JNum rat
  | JStr string
  | JArr "jsval list"
  | JObj "(string \<times> jsval) list"

text \<open>What is thrown: a \<open>TypeError\<close> of the language itself, or an error raised by a
  collaborator that is not part of these files (its \<open>message\<close> is kept).\<close>

datatype js_error = TypeError | Thrown string

text \<open>JavaScript's \<open>ToBoolean\<close>, used by \<open>if (x)\<close>, \<open>x && y\<close> and \<open>!x\<close>.\<close>

fun truthy :: "jsval \<Rightarrow> bool" where
  "truthy JUndefined = False"
| "truthy JNull = False"
| "truthy (JBool b) = b"
| "truthy (JNum n) = (n \<noteq> 0)"
| "truthy (JStr s) = (s \<noteq> [])"
| "truthy (JArr xs) = True"
| "truthy (JObj fs) = True"

text \<open>\<open>v.k\<close> for a data property \<open>k\<close>: the own property of an object, \<open>undefined\<close> when
  there is none and on a primitive or an array (none of the names read here is a
  property of a prototype). On \<open>undefined\<close> and \<open>null\<close> the read throws.\<close>

fun field :: "jsval \<Rightarrow> string \<Rightarrow> jsval" where
  "field (JObj fs) k = (case map_of fs k of Some v \<Rightarrow> v | None \<Rightarrow> JUndefined)"
| "field v k = JUndefined"

definition nullish :: "jsval \<Rightarrow> bool" where
  "nullish v = (v = JUndefined \<or> v = JNull)"

definition member :: "jsval \<Rightarrow> string \<Rightarrow> js_error + jsval" where
  "member v k = (if nullish v then Inl TypeError else Inr (field v k))"

text \<open>\<open>o.k = v\<close> on the property list of an object: an existing property keeps its
  place, a new one goes last. An object has each property name once; on a list that
  repeats a name, every entry of that name is set.\<close>

definition set_prop :: "string \<Rightarrow> jsval \<Rightarrow> (string \<times> jsval) list \<Rightarrow> (string \<times> jsval) list" where
  "set_prop k v fs =
     (if k \<in> fst ` set fs then map (\<lambda>(k', v'). if k' = k then (k', v) else (k', v')) fs
      else fs @ [(k, v)])"

text \<open>\<open>x.k = v\<close> on any value, in sloppy mode (the files have no \<open>'use strict'\<close>):
  it throws on \<open>undefined\<close> and \<open>null\<close>, is silently dropped on a primitive, and
  stores the property on an object.\<close>

fun assign :: "jsval \<Rightarrow> string \<Rightarrow> jsval \<Rightarrow> js_error + jsval" where
  "assign JUndefined k v = Inl TypeError"
| "assign JNull k v = Inl TypeError"
| "assign (JObj fs) k v = Inr (JObj (set_prop k v fs))"
| "assign x k v = Inr x"

section \<open>recipe.js: building the quantities of a recipe\<close>

text \<open>\<open>Quantifiable.build\<close> comes from \<open>../util/quantify\<close>, which is not among the
  files; here it is a parameter: any function of the two arguments that returns a value
  or throws.\<close>

type_synonym builder = "jsval \<Rightarrow> jsval \<Rightarrow> js_error + jsval"

text \<open>The object literal both versions of \<open>mapQuantifiable\<close> return: three reads on
  what \<open>build\<close> returned (the first read throws when that is \<open>undefined\<close> or \<open>null\<close>).\<close>

definition backendQuantifiable :: "jsval \<Rightarrow> js_error + jsval" where
  "backendQuantifiable quantifiable =
     (if nullish quantifiable then Inl TypeError
      else Inr (JObj [(''readable'', field quantifiable ''readable''),
                      (''numeric'', field quantifiable ''normalized''),
                      (''unit'', field quantifiable ''units'')]))"

text \<open>\<open>mapQuantifiable\<close> of controllers/recipe.js. A function body that falls off its
  end returns \<open>undefined\<close>.\<close>

definition mapQuantifiable :: "builder \<Rightarrow> jsval \<Rightarrow> js_error + jsval" where
  "mapQuantifiable build input =
     (if truthy input \<and> truthy (field input ''quantity'') \<and> truthy (field input ''unit'')
      then (case build (field input ''quantity'') (field input ''unit'') of
              Inl e \<Rightarrow> Inl e
            | Inr quantifiable \<Rightarrow> backendQuantifiable quantifiable)
      else Inr JUndefined)"

text \<open>\<open>mapQuantifiable\<close> of the recipes route (the older file kept beside user.js): it
  tests the input alone.\<close>

definition mapQuantifiable_route :: "builder \<Rightarrow> jsval \<Rightarrow> js_error + jsval" where
  "mapQuantifiable_route build input =
     (if truthy input
      then (case build (field input ''quantity'') (field input ''unit'') of
              Inl e \<Rightarrow> Inl e
            | Inr quantifiable \<Rightarrow> backendQuantifiable quantifiable)
      else Inr JUndefined)"

text \<open>\<open>Array.prototype.map\<close> and \<open>forEach\<close> with a callback that may throw: the first
  throw ends the loop.\<close>

fun mapE :: "('a \<Rightarrow> js_error + 'b) \<Rightarrow> 'a list \<Rightarrow> js_error + 'b list" where
  "mapE f [] = Inr []"
| "mapE f (x # xs) =
     (case f x of
        Inl e \<Rightarrow> Inl e
      | Inr y \<Rightarrow> (case mapE f xs of Inl e \<Rightarrow> Inl e | Inr ys \<Rightarrow> Inr (y # ys)))"

text \<open>The callback of \<open>body.ingredients.map\<close> in \<open>extractRecipe\<close>: \<open>i.name\<close> is read
  first and throws on \<open>undefined\<close> and \<open>null\<close>.\<close>

definition extractIngredient :: "builder \<Rightarrow> jsval \<Rightarrow> js_error + jsval" where
  "extractIngredient build i =
     (if nullish i then Inl TypeError
      else (case mapQuantifiable build (field i ''amount'') of
              Inl e \<Rightarrow> Inl e
            | Inr amount \<Rightarrow> Inr (JObj [(''name'', field i ''name''), (''amount'', amount)])))"

text \<open>\<open>extractRecipe\<close>: the body is the JSON object of the request. A truthy
  \<open>body.ingredients\<close> that is not an array has no \<open>map\<close> to call.\<close>

definition extractRecipe :: "builder \<Rightarrow> (string \<times> jsval) list \<Rightarrow> js_error + (string \<times> jsval) list" where
  "extractRecipe build body =
     (case mapQuantifiable build (field (JObj body) ''prepTime'') of
        Inl e \<Rightarrow> Inl e
      | Inr prepTime \<Rightarrow>
          (let recipeBuilder = set_prop ''prepTime'' prepTime body in
           if truthy (field (JObj body) ''ingredients'')
           then (case field (JObj body) ''ingredients'' of
                   JArr ingredients \<Rightarrow>
                     (case mapE (extractIngredient build) ingredients of
                        Inl e \<Rightarrow> Inl e
                      | Inr built \<Rightarrow> Inr (set_prop ''ingredients'' (JArr built) recipeBuilder))
                 | _ \<Rightarrow> Inl TypeError)
           else Inr recipeBuilder))"

subsection \<open>Identifiers\<close>

text \<open>\<open>objectIdIsValid\<close> is \<open>id.match(/^[a-f\d]{24}$/i)\<close>, used as a condition: the
  match succeeds exactly on 24 characters, each a digit or a letter a to f in either
  case (\<open>$\<close> without the \<open>m\<close> flag is the end of the string).\<close>

definition hexChar :: "char \<Rightarrow> bool" where
  "hexChar c = (c \<in> set ''0123456789abcdefABCDEF'')"

definition objectIdIsValid :: "string \<Rightarrow> bool" where
  "objectIdIsValid rid = (length rid = 24 \<and> list_all hexChar rid)"

subsection \<open>The recipe collection\<close>

text \<open>The database behind the \<open>Recipe\<close> model: the documents by id, and the calls the
  controller has made to the model, in order.\<close>

datatype db_call = FindById string | Save string | FindByIdAndDelete string

record db =
  docs :: "string \<Rightarrow> jsval option"
  calls :: "db_call list"

text \<open>What the controller uses and the files do not contain: \<open>Quantifiable.build\<close>, the
  \<open>Recipe\<close> constructor (the schema's cast of a plain object), the ids the model can cast
  (any other makes a query throw), the error \<open>save\<close> rejects a document with, and the
  clock.\<close>

record collaborators =
  quantify_build :: builder
  new_Recipe :: "jsval \<Rightarrow> jsval"
  castable :: "string \<Rightarrow> bool"
  save_error :: "jsval \<Rightarrow> string option"
  date_now :: rat

text \<open>\<open>quickResponse(status, message, reason)\<close> is not among the files either. A
  response is the three arguments it was called with (\<open>undefined\<close> for a missing
  second one); the third is the error whose \<open>message\<close> is passed. \<open>temp.data.message\<close>
  reads the second.\<close>

datatype response = QuickResponse (status: nat) (message: jsval) (reason: "js_error option")

definition quoted :: "string \<Rightarrow> string" where
  "quoted s = [CHR 0x22] @ s @ [CHR 0x22]"

definition fetchById :: "collaborators \<Rightarrow> db \<Rightarrow> string \<Rightarrow> response \<times> db" where
  "fetchById env d rid =
     (let notFoundMessage = ''The recipe with ID of '' @ quoted rid @ '' could not be retrieved.'';
          d' = d\<lparr>calls := calls d @ [FindById rid]\<rparr>
      in if \<not> castable env rid then (QuickResponse 404 (JStr notFoundMessage) None, d')
         else (case docs d rid of
                 Some data \<Rightarrow>
                   if truthy data then (QuickResponse 200 data None, d')
                   else (QuickResponse 404 (JStr notFoundMessage) None, d')
               | None \<Rightarrow> (QuickResponse 404 (JStr notFoundMessage) None, d')))"

text \<open>The seven assignments of \<open>change\<close> onto the current recipe.\<close>

definition mapProperties :: "collaborators \<Rightarrow> jsval \<Rightarrow> jsval \<Rightarrow> jsval" where
  "mapProperties env newRecipe currRecipe =
     (case currRecipe of
        JObj fs \<Rightarrow>
          JObj (set_prop ''instructions'' (field newRecipe ''instructions'')
               (set_prop ''ingredients'' (field newRecipe ''ingredients'')
               (set_prop ''prepTime'' (field newRecipe ''prepTime'')
               (set_prop ''modifiedOn'' (JNum (date_now env))
               (set_prop ''category'' (field newRecipe ''category'')
               (set_prop ''about'' (field newRecipe ''about'')
               (set_prop ''title'' (field newRecipe ''title'') fs)))))))
      | _ \<Rightarrow> currRecipe)"

text \<open>\<open>change\<close>: everything runs inside \<open>try\<close>, and every throw ends in the 400
  response. \<open>new Recipe(...)\<close> is an object, so the reads on it do not throw. Only a
  document has a \<open>save\<close> method: on the message string of a 404 the call is a
  \<open>TypeError\<close>.\<close>

definition change :: "collaborators \<Rightarrow> db \<Rightarrow> string \<Rightarrow> (string \<times> jsval) list \<Rightarrow> response \<times> db" where
  "change env d rid json =
     (if \<not> objectIdIsValid rid
      then (QuickResponse 404
              (JStr (''The recipe with ID of '' @ quoted rid @ '' could not be retrieved.'')) None, d)
      else
        (let (temp, d1) = fetchById env d rid;
             currRecipe = message temp;
             notUpdated = JStr (''The recipe with ID of '' @ quoted rid @ '' could not be updated.'')
         in case extractRecipe (quantify_build env) json of
              Inl err \<Rightarrow> (QuickResponse 400 notUpdated (Some err), d1)
            | Inr recipe \<Rightarrow>
                (let newRecipe = new_Recipe env (JObj recipe);
                     curr = mapProperties env newRecipe currRecipe
                 in case curr of
                      JObj fs \<Rightarrow>
                        (let d2 = d1\<lparr>calls := calls d1 @ [Save rid]\<rparr>
                         in case save_error env curr of
                              Some m \<Rightarrow> (QuickResponse 400 notUpdated (Some (Thrown m)), d2)
                            | None \<Rightarrow>
                                (QuickResponse 200
                                   (JStr (''The recipe with ID of '' @ quoted rid @
                                          '' was successfully updated.'')) None,
                                 d2\<lparr>docs := (docs d2)(rid \<mapsto> curr)\<rparr>))
                    | _ \<Rightarrow> (QuickResponse 400 notUpdated (Some TypeError), d1))))"

text \<open>\<open>discard\<close>. Its not-found message has a full stop after the quoted id.\<close>

definition discard :: "collaborators \<Rightarrow> db \<Rightarrow> string \<Rightarrow> response \<times> db" where
  "discard env d rid =
     (let notFoundMessage = ''The recipe with ID of '' @ quoted rid @ ''.'' @ '' could not be retrieved.''
      in if \<not> objectIdIsValid rid then (QuickResponse 404 (JStr notFoundMessage) None, d)
         else
           (let d1 = d\<lparr>calls := calls d @ [FindByIdAndDelete rid]\<rparr>
            in if \<not> castable env rid then (QuickResponse 404 (JStr notFoundMessage) None, d1)
               else (case docs d rid of
                       None \<Rightarrow> (QuickResponse 404 (JStr notFoundMessage) None, d1)
                     | Some data \<Rightarrow>
                         (let d2 = d1\<lparr>docs := (docs d1)(rid := None)\<rparr>
                          in if \<not> truthy data then (QuickResponse 404 (JStr notFoundMessage) None, d2)
                             else (QuickResponse 200
                                     (JStr (''The recipe with ID of '' @ quoted rid @
                                            '' was successfully deleted.'')) None, d2)))))"

section \<open>user.js: what a response shows of a user\<close>

text \<open>\<open>res.json(data)\<close> sends \<open>JSON.stringify(data)\<close>: a property whose value is
  \<open>undefined\<close> is left out of an object, an \<open>undefined\<close> element of an array is written
  \<open>null\<close>. The body is kept as the tree that the text denotes.\<close>

fun stringify :: "jsval \<Rightarrow> jsval" where
  "stringify (JObj fs) =
     JObj (map (\<lambda>(k, v). (k, stringify v)) (filter (\<lambda>(k, v). v \<noteq> JUndefined) fs))"
| "stringify (JArr xs) = JArr (map (\<lambda>v. if v = JUndefined then JNull else stringify v) xs)"
| "stringify v = v"

text \<open>\<open>user.password = user.__v = undefined\<close>: the inner assignment runs first.\<close>

definition scrub :: "jsval \<Rightarrow> js_error + jsval" where
  "scrub user =
     (case assign user ''__v'' JUndefined of
        Inl e \<Rightarrow> Inl e
      | Inr u \<Rightarrow> assign u ''password'' JUndefined)"

text \<open>The user service is not among the files: a controller is a function of the
  \<open>{ status, data }\<close> the service returned, and yields the status and the body sent, or
  the error thrown before anything was sent. The documents are changed in place, so
  \<open>data\<close> holds the changed ones when it is sent.\<close>

definition with_message :: "jsval \<Rightarrow> jsval \<Rightarrow> jsval" where
  "with_message data m = (case data of JObj fs \<Rightarrow> JObj (set_prop ''message'' m fs) | _ \<Rightarrow> data)"

definition getAllUsers :: "nat \<times> jsval \<Rightarrow> js_error + nat \<times> jsval" where
  "getAllUsers r =
     (let (status, data) = r
      in case member data ''message'' of
           Inl e \<Rightarrow> Inl e
         | Inr (JArr users) \<Rightarrow>
             (case mapE scrub users of
                Inl e \<Rightarrow> Inl e
              | Inr scrubbed \<Rightarrow> Inr (status, stringify (with_message data (JArr scrubbed))))
         | Inr _ \<Rightarrow> Inl TypeError)"

definition getUserById :: "nat \<times> jsval \<Rightarrow> js_error + nat \<times> jsval" where
  "getUserById r =
     (let (status, data) = r
      in case member data ''message'' of
           Inl e \<Rightarrow> Inl e
         | Inr user \<Rightarrow>
             (case scrub user of
                Inl e \<Rightarrow> Inl e
              | Inr scrubbed \<Rightarrow> Inr (status, stringify (with_message data scrubbed))))"

definition has_key :: "jsval \<Rightarrow> string \<Rightarrow> bool" where
  "has_key v k = (case v of JObj fs \<Rightarrow> k \<in> fst ` set fs | _ \<Rightarrow> False)"

subsection \<open>What two users have in common\<close>

text \<open>The properties of a user other than the two the controllers blank, and the
  relation between two stored values that differ at most in those two.\<close>

definition public :: "(string \<times> jsval) list \<Rightarrow> (string \<times> jsval) list" where
  "public fs = filter (\<lambda>(k, v). k \<noteq> ''password'' \<and> k \<noteq> ''__v'') fs"

fun same_public :: "jsval \<Rightarrow> jsval \<Rightarrow> bool" where
  "same_public (JObj f1) (JObj f2) = (public f1 = public f2)"
| "same_public u1 u2 = (u1 = u2)"

section \<open>Concrete inputs\<close>

text \<open>A \<open>build\<close> that answers every call with the rendering of zero cups, a set of
  collaborators around it, an empty collection, and a stored user with a given
  password.\<close>

definition zero_cups_build :: builder where
  "zero_cups_build quantity unit =
     Inr (JObj [(''readable'', JStr ''0 cups''), (''normalized'', JNum 0), (''units'', JStr ''cup'')])"

definition sample_env :: collaborators where
  "sample_env =
     \<lparr>quantify_build = zero_cups_build, new_Recipe = (\<lambda>v. v), castable = objectIdIsValid,
      save_error = (\<lambda>v. None), date_now = 0\<rparr>"

definition empty_db :: db where
  "empty_db = \<lparr>docs = (\<lambda>k. None), calls = []\<rparr>"

definition sample_user :: "string \<Rightarrow> jsval" where
  "sample_user pw =
     JObj [(''username'', JStr ''ada''), (''password'', JStr pw), (''__v'', JNum 0)]"

section \<open>The quantity engine, as the specification describes it\<close>

text \<open>
  \<open>../util/quantify\<close> is not among the files. The components below are written from
  the specification's sections 3, 4 and 7, over exact rational numbers.
\<close>

subsection \<open>Unit Registry\<close>

text \<open>Modelled from the spec: the MeasurementCategory of section 3 (util/quantify is
  missing).\<close>

datatype MeasurementCategory = Volume | Mass | Count

text \<open>Modelled from the spec: the UnitDefinition of section 3, with its canonical
  token, accepted aliases, category, factor to the base unit and the two display
  forms (util/quantify is missing).\<close>

record UnitDefinition =
  token :: string
  aliases :: "string list"
  category :: MeasurementCategory
  factorToBase :: rat
  singular :: string
  plural :: string

text \<open>Modelled from the spec: the registry is a static table of unit definitions
  (section 2); the table itself is configuration and stays a parameter.\<close>

type_synonym registry = "UnitDefinition list"

text \<open>Modelled from the spec: lookup is case-insensitive (section 4.1); letters are
  compared in lower case.\<close>

definition lower :: "char \<Rightarrow> char" where
  "lower c =
     (case map_of (zip ''ABCDEFGHIJKLMNOPQRSTUVWXYZ'' ''abcdefghijklmnopqrstuvwxyz'') c of
        Some l \<Rightarrow> l
      | None \<Rightarrow> c)"

text \<open>Modelled from the spec: lookup trims surrounding whitespace (section 4.1):
  space, tab, line feed and carriage return at both ends.\<close>

definition is_space :: "char \<Rightarrow> bool" where
  "is_space c = (c \<in> set [CHR '' '', CHR 0x09, CHR 0x0A, CHR 0x0D])"

text \<open>Modelled from the spec: trimming (section 4.1) removes the whitespace before
  the first and after the last other character.\<close>

definition trim :: "string \<Rightarrow> string" where
  "trim s = rev (dropWhile is_space (rev (dropWhile is_space s)))"


text \<open>Modelled from the spec: a token as the registry compares it, trimmed and in
  lower case (section 4.1).\<close>

definition normal_token :: "string \<Rightarrow> string" where
  "normal_token s = map lower (trim s)"

text \<open>Modelled from the spec: a unit accepts its canonical token and each of its
  aliases (section 3).\<close>

definition accepts :: "UnitDefinition \<Rightarrow> string \<Rightarrow> bool" where
  "accepts d t = (t \<in> set (map normal_token (token d # aliases d)))"

text \<open>Modelled from the spec: the exact alias match of section 4.1, on a compared
  token; \<open>None\<close> is NotFound.\<close>

definition lookup :: "registry \<Rightarrow> string \<Rightarrow> UnitDefinition option" where
  "lookup reg t = find (\<lambda>d. accepts d t) reg"

text \<open>Modelled from the spec: \<open>resolve\<close> of section 4.1. A trailing \<open>s\<close> is stripped
  if the singular form is itself registered, before falling back to the exact alias
  match; a token that neither finds is NotFound.\<close>

definition resolve :: "registry \<Rightarrow> string \<Rightarrow> UnitDefinition option" where
  "resolve reg tok =
     (let t = normal_token tok
      in case (if t \<noteq> [] \<and> last t = CHR ''s'' then lookup reg (butlast t) else None) of
           Some d \<Rightarrow> Some d
         | None \<Rightarrow> lookup reg t)"

subsection \<open>Fraction Formatter\<close>

text \<open>Modelled from the spec: the character of one decimal digit of a rendered
  number (section 4.4).\<close>

definition show_digit :: "nat \<Rightarrow> char" where
  "show_digit n = ''0123456789'' ! n"

text \<open>Modelled from the spec: a whole number in decimal digits, most significant
  first (section 4.4).\<close>

fun show_nat :: "nat \<Rightarrow> string" where
  "show_nat n = (if n < 10 then [show_digit n] else show_nat (n div 10) @ [show_digit (n mod 10)])"

declare show_nat.simps [simp del]

text \<open>The ten digit characters.\<close>

definition is_digit :: "char \<Rightarrow> bool" where
  "is_digit c = (c \<in> set ''0123456789'')"

text \<open>Modelled from the spec: step 3 of section 4.4. For one denominator, the
  numerator of the closest proper fraction to \<open>f\<close>; the denominators are tried in the
  priority order given, and the first whose closest fraction lies within 1/64 of \<open>f\<close>
  is the match.\<close>

definition closest :: "rat \<Rightarrow> nat \<Rightarrow> nat" where
  "closest f d = max 1 (min (d - 1) (nat (round (f * of_nat d))))"

text \<open>Modelled from the spec: the match of step 3 over the denominators in their
  priority order; \<open>None\<close> when no fraction is within tolerance.\<close>

fun match_fraction :: "rat \<Rightarrow> nat list \<Rightarrow> (nat \<times> nat) option" where
  "match_fraction f [] = None"
| "match_fraction f (d # ds) =
     (let n = closest f d
      in if \<bar>f - of_nat n / of_nat d\<bar> \<le> 1 / 64 then Some (n, d) else match_fraction f ds)"

text \<open>Modelled from the spec: step 4 of section 4.4, the decimal string rounded to 2
  places.\<close>

definition decimal2 :: "rat \<Rightarrow> string" where
  "decimal2 v =
     (let c = nat (round (v * 100))
      in show_nat (c div 100) @ ''.'' @ [show_digit (c mod 100 div 10), show_digit (c mod 10)])"

text \<open>Modelled from the spec: steps 1 to 4 of section 4.4 for a value that is not
  negative (the invariant of a Quantity): the whole part alone when the remainder is
  within 1e-6 of 0, else the matched fraction in lowest terms after the whole part
  (left out when zero), else the decimal string.\<close>

definition number_text :: "rat \<Rightarrow> string" where
  "number_text v =
     (let w = nat \<lfloor>v\<rfloor>; f = v - of_nat w
      in if \<bar>f\<bar> < 1 / 1000000 then show_nat w
         else (case match_fraction f [2, 3, 4, 8] of
                 Some (n, d) \<Rightarrow>
                   (if w = 0 then [] else show_nat w @ '' '') @
                   show_nat (n div gcd n d) @ ''/'' @ show_nat (d div gcd n d)
               | None \<Rightarrow> decimal2 v))"

text \<open>Modelled from the spec: \<open>render\<close> of section 4.4 with its step 5: the unit's
  display form follows, plural unless the number rendered is exactly 1.\<close>

definition render :: "rat \<Rightarrow> UnitDefinition \<Rightarrow> string" where
  "render v u =
     (let t = number_text v
      in t @ '' '' @ (if t = ''1'' then singular u else plural u))"

subsection \<open>Quantity Parser\<close>

text \<open>Modelled from the spec: the raw value of section 4.2 is a number or a string
  (util/quantify is missing); an absent value or unit is \<open>None\<close>.\<close>

datatype raw_value = Number rat | Text string

text \<open>Modelled from the spec: the error kinds of section 7.\<close>

datatype ParseError = IncompleteQuantity | InvalidNumber | NegativeQuantity | UnknownUnit string

text \<open>Modelled from the spec: the Quantity of section 3, a value with its resolved
  unit.\<close>

record Quantity =
  qvalue :: rat
  qunit :: UnitDefinition

text \<open>Modelled from the spec: what the parser and the facade return (sections 4.2 and
  4.5): no quantity, an error as a value, or a result.\<close>

datatype 'a outcome = Absent | Failed ParseError | Built 'a

text \<open>Modelled from the spec: the value of a run of decimal digits.\<close>

definition digit_value :: "char \<Rightarrow> nat" where
  "digit_value c = (case map_of (zip ''0123456789'' [0 ..< 10]) c of Some n \<Rightarrow> n | None \<Rightarrow> 0)"

definition digits_value :: "string \<Rightarrow> nat" where
  "digits_value ds = foldl (\<lambda>a c. 10 * a + digit_value c) 0 ds"

text \<open>Modelled from the spec: numeric coercion of section 4.2. A string is a decimal
  number with an optional leading sign and at most one decimal point, and at least one
  digit; anything else does not parse.\<close>

definition parse_decimal :: "string \<Rightarrow> rat option" where
  "parse_decimal s =
     (let (negative, body) =
            (case s of
               [] \<Rightarrow> (False, s)
             | c # cs \<Rightarrow> if c = CHR ''-'' then (True, cs)
                         else if c = CHR ''+'' then (False, cs) else (False, s));
          whole = takeWhile is_digit body;
          rest = dropWhile is_digit body;
          fraction = (case rest of
                        [] \<Rightarrow> Some []
                      | c # cs \<Rightarrow> if c = CHR ''.'' \<and> list_all is_digit cs then Some cs else None)
      in case fraction of
           None \<Rightarrow> None
         | Some ds \<Rightarrow>
             if whole = [] \<and> ds = [] then None
             else Some ((if negative then - 1 else 1) *
                        (of_nat (digits_value whole) + of_nat (digits_value ds) / 10 ^ length ds)))"

text \<open>Modelled from the spec: \<open>parse\<close> of section 4.2, its rules in the order the
  section lists them: both absent is Absent; one without the other is
  IncompleteQuantity; a string that does not parse is InvalidNumber; a negative value
  is NegativeQuantity; an unresolved unit token is UnknownUnit of that token.\<close>

definition parse :: "registry \<Rightarrow> raw_value option \<Rightarrow> string option \<Rightarrow> Quantity outcome" where
  "parse reg rawValue rawUnit =
     (case (rawValue, rawUnit) of
        (None, None) \<Rightarrow> Absent
      | (Some v, None) \<Rightarrow> Failed IncompleteQuantity
      | (None, Some tok) \<Rightarrow> Failed IncompleteQuantity
      | (Some v, Some tok) \<Rightarrow>
          (case (case v of Number x \<Rightarrow> Some x | Text s \<Rightarrow> parse_decimal s) of
             None \<Rightarrow> Failed InvalidNumber
           | Some x \<Rightarrow>
               if x < 0 then Failed NegativeQuantity
               else (case resolve reg tok of
                       None \<Rightarrow> Failed (UnknownUnit tok)
                     | Some d \<Rightarrow> Built \<lparr>qvalue = x, qunit = d\<rparr>)))"

subsection \<open>Normalizer\<close>

text \<open>Modelled from the spec: the number of decimal digits of a whole number, for the
  rounding policy of section 4.3.\<close>

fun digits10 :: "nat \<Rightarrow> nat" where
  "digits10 n = (if n < 10 then 1 else Suc (digits10 (n div 10)))"

declare digits10.simps [simp del]

text \<open>Modelled from the spec: a power of ten with an integer exponent.\<close>

definition pow10 :: "int \<Rightarrow> rat" where
  "pow10 e = (if 0 \<le> e then 10 ^ nat e else 1 / 10 ^ nat (- e))"

text \<open>Modelled from the spec: the decimal exponent of a positive number \<open>x\<close>, the \<open>e\<close>
  with \<open>10^e \<le> x < 10^(e+1)\<close>: one less than the digits of its whole part when
  \<open>x \<ge> 1\<close>, and read off the reciprocal otherwise.\<close>

definition exponent10 :: "rat \<Rightarrow> int" where
  "exponent10 x =
     (if 1 \<le> x then int (digits10 (nat \<lfloor>x\<rfloor>)) - 1
      else - int (digits10 (nat (\<lceil>1 / x\<rceil> - 1))))"

text \<open>Modelled from the spec: round-half-to-even to a whole number (section 4.3).\<close>

definition round_half_even :: "rat \<Rightarrow> int" where
  "round_half_even x =
     (let n = \<lfloor>x\<rfloor>; r = x - of_int n
      in if r < 1 / 2 then n
         else if 1 / 2 < r then n + 1
         else if even n then n else n + 1)"

text \<open>Modelled from the spec: rounding to 4 significant decimal digits, half to even
  (section 4.3): the number is scaled so that four digits stand before the point,
  rounded, and scaled back.\<close>

definition round_sig4 :: "rat \<Rightarrow> rat" where
  "round_sig4 x =
     (if x = 0 then 0
      else (let e = exponent10 \<bar>x\<bar> - 3
            in sgn x * of_int (round_half_even (\<bar>x\<bar> / pow10 e)) * pow10 e))"

text \<open>Modelled from the spec: the NormalizedQuantity of section 3 and \<open>normalize\<close> of
  section 4.3: the value times the unit's factor, rounded, in the unit's category.\<close>

record NormalizedQuantity =
  base_value :: rat
  base_category :: MeasurementCategory

definition normalize :: "Quantity \<Rightarrow> NormalizedQuantity" where
  "normalize q =
     \<lparr>base_value = round_sig4 (qvalue q * factorToBase (qunit q)),
      base_category = category (qunit q)\<rparr>"

subsection \<open>Quantifiable facade\<close>

text \<open>Modelled from the spec: the Rendering of section 3: the readable string, the
  normalized value and the unit's token.\<close>

record Rendering =
  readable :: string
  normalized :: rat
  unit_token :: string

text \<open>Modelled from the spec: \<open>build\<close> of section 4.5: parse, normalize, and render the
  value and unit as entered; Absent and every error of the parser are passed on
  unchanged.\<close>

definition quantifiable_build ::
  "registry \<Rightarrow> raw_value option \<Rightarrow> string option \<Rightarrow> Rendering outcome" where
  "quantifiable_build reg rawValue rawUnit =
     (case parse reg rawValue rawUnit of
        Absent \<Rightarrow> Absent
      | Failed e \<Rightarrow> Failed e
      | Built q \<Rightarrow>
          Built \<lparr>readable = render (qvalue q) (qunit q),
                 normalized = base_value (normalize q),
                 unit_token = token (qunit q)\<rparr>)"

subsection \<open>Concrete units\<close>

text \<open>Two units for concrete lookups and renderings: the cup, and the millilitre as
  the base unit of volumes.\<close>

definition cup :: UnitDefinition where
  "cup = \<lparr>token = ''cup'', aliases = [''c'', ''Cup''], category = Volume,
          factorToBase = 2365882365 / 10000000, singular = ''cup'', plural = ''cups''\<rparr>"

definition millilitre :: UnitDefinition where
  "millilitre = \<lparr>token = ''mL'', aliases = [''ml'', ''milliliter'', ''millilitre''],
          category = Volume, factorToBase = 1, singular = ''mL'', plural = ''mL''\<rparr>"



text \<open>A \<open>build\<close> for the controllers that answers for cups as the specification
  describes: the readable text of the value as entered, the value in millilitres
  rounded, and the unit it was given.\<close>

definition cup_build :: builder where
  "cup_build quantity unit =
     (case quantity of
        JNum q \<Rightarrow>
          Inr (JObj [(''readable'', JStr (render q cup)),
                     (''normalized'', JNum (round_sig4 (q * factorToBase cup))),
                     (''units'', unit)])
      | _ \<Rightarrow> Inl (Thrown ''not a number''))"

section \<open>Properties of the controllers\<close>

subsection \<open>Property lists\<close>

lemma defined_set_prop:
  "filter (\<lambda>(k', v). v \<noteq> JUndefined) (set_prop k JUndefined fs)
     = filter (\<lambda>(k', v). v \<noteq> JUndefined \<and> k' \<noteq> k) fs"
proof -
  have a: "filter (\<lambda>(k', v). v \<noteq> JUndefined)
             (map (\<lambda>(k', v'). if k' = k then (k', JUndefined) else (k', v')) fs)
     = filter (\<lambda>(k', v). v \<noteq> JUndefined \<and> k' \<noteq> k) fs"
    by (induction fs) auto
  have b: "k \<notin> fst ` set fs \<Longrightarrow>
      filter (\<lambda>(k', v). v \<noteq> JUndefined \<and> k' \<noteq> k) fs = filter (\<lambda>(k', v). v \<noteq> JUndefined) fs"
    by (induction fs) auto
  show ?thesis using a b by (auto simp: set_prop_def)
qed

lemma defined_scrubbed:
  "filter (\<lambda>(k, v). v \<noteq> JUndefined)
     (set_prop ''password'' JUndefined (set_prop ''__v'' JUndefined fs))
     = filter (\<lambda>(k, v). v \<noteq> JUndefined) (public fs)"
proof -
  have "filter (\<lambda>(k, v). v \<noteq> JUndefined \<and> k \<noteq> ''password'') (set_prop ''__v'' JUndefined fs)
      = filter (\<lambda>(k, v). k \<noteq> ''password'')
          (filter (\<lambda>(k, v). v \<noteq> JUndefined) (set_prop ''__v'' JUndefined fs))"
    by (simp add: case_prod_unfold conj_commute)
  also have "\<dots> = filter (\<lambda>(k, v). k \<noteq> ''password'')
                     (filter (\<lambda>(k, v). v \<noteq> JUndefined \<and> k \<noteq> ''__v'') fs)"
    by (simp only: defined_set_prop)
  also have "\<dots> = filter (\<lambda>(k, v). v \<noteq> JUndefined) (public fs)"
    by (auto simp: public_def case_prod_unfold intro: filter_cong)
  finally show ?thesis by (simp add: defined_set_prop)
qed

lemma field_set_prop: "field (JObj (set_prop k v fs)) k = v"
proof -
  have a: "k \<in> fst ` set fs \<Longrightarrow>
        map_of (map (\<lambda>(k', v'). if k' = k then (k', v) else (k', v')) fs) k = Some v"
    by (induction fs) auto
  have b: "k \<notin> fst ` set fs \<Longrightarrow> map_of (fs @ [(k, v)]) k = Some v"
    by (induction fs) auto
  show ?thesis using a b by (simp add: set_prop_def)
qed

lemma set_prop_twice: "set_prop k a (set_prop k b fs) = set_prop k a fs"
proof (cases "k \<in> fst ` set fs")
  case True
  then have "k \<in> fst ` set (map (\<lambda>(k', v'). if k' = k then (k', b) else (k', v')) fs)"
    by (force simp: image_iff split: prod.splits)
  with True show ?thesis
    by (auto simp: set_prop_def case_prod_unfold)
next
  case False
  then have "map (\<lambda>(k', v'). if k' = k then (k', a) else (k', v')) fs = fs"
    by (induction fs) auto
  with False show ?thesis by (simp add: set_prop_def)
qed

lemma field_stringify_set_prop:
  "v \<noteq> JUndefined \<Longrightarrow> field (stringify (JObj (set_prop k v fs))) k = stringify v"
proof -
  assume v: "v \<noteq> JUndefined"
  have a: "k \<in> fst ` set fs \<Longrightarrow>
        map_of (map (\<lambda>(k, v). (k, stringify v)) (filter (\<lambda>(k, v). v \<noteq> JUndefined)
           (map (\<lambda>(k', v'). if k' = k then (k', v) else (k', v')) fs))) k = Some (stringify v)"
    using v by (induction fs) (auto split: if_splits)
  have b: "k \<notin> fst ` set fs \<Longrightarrow>
        map_of (map (\<lambda>(k, v). (k, stringify v))
                 (filter (\<lambda>(k, v). v \<noteq> JUndefined) (fs @ [(k, v)]))) k
          = Some (stringify v)"
    using v by (induction fs) auto
  show ?thesis using a b by (simp add: set_prop_def)
qed

lemma stringify_set_prop_cong:
  assumes "stringify v1 = stringify v2" "v1 = JUndefined \<longleftrightarrow> v2 = JUndefined"
  shows "stringify (JObj (set_prop k v1 fs)) = stringify (JObj (set_prop k v2 fs))"
proof -
  have a: "map (\<lambda>(k, v). (k, stringify v)) (filter (\<lambda>(k, v). v \<noteq> JUndefined)
           (map (\<lambda>(k', v'). if k' = k then (k', v1) else (k', v')) fs))
         = map (\<lambda>(k, v). (k, stringify v)) (filter (\<lambda>(k, v). v \<noteq> JUndefined)
           (map (\<lambda>(k', v'). if k' = k then (k', v2) else (k', v')) fs))"
    using assms by (induction fs) (auto split: if_splits)
  show ?thesis using a assms by (simp add: set_prop_def)
qed

subsection \<open>Blanking the password and the version\<close>

lemma scrub_JObj:
  "scrub (JObj fs) = Inr (JObj (set_prop ''password'' JUndefined (set_prop ''__v'' JUndefined fs)))"
  by (simp add: scrub_def)

lemma stringify_scrub_JObj:
  "scrub (JObj fs) = Inr u \<Longrightarrow>
   stringify u = JObj (map (\<lambda>(k, v). (k, stringify v))
                        (filter (\<lambda>(k, v). v \<noteq> JUndefined) (public fs)))"
  by (auto simp: scrub_JObj defined_scrubbed)

lemma has_key_stringify_scrub:
  assumes "scrub u = Inr u'"
  shows "\<not> has_key (stringify u') ''password'' \<and> \<not> has_key (stringify u') ''__v''"
proof (cases u)
  case (JObj fs)
  with assms have "stringify u' = JObj (map (\<lambda>(k, v). (k, stringify v))
                     (filter (\<lambda>(k, v). v \<noteq> JUndefined) (public fs)))"
    by (simp add: stringify_scrub_JObj)
  then show ?thesis by (auto simp: has_key_def public_def)
qed (use assms in \<open>auto simp: scrub_def has_key_def\<close>)

lemma same_public_scrub:
  assumes "same_public u1 u2"
  shows "(\<exists>e. scrub u1 = Inl e \<and> scrub u2 = Inl e) \<or>
         (\<exists>s1 s2. scrub u1 = Inr s1 \<and> scrub u2 = Inr s2 \<and> stringify s1 = stringify s2 \<and>
                  (s1 = JUndefined \<longleftrightarrow> s2 = JUndefined))"
proof (cases "\<exists>f1 f2. u1 = JObj f1 \<and> u2 = JObj f2")
  case True
  then obtain f1 f2 where u: "u1 = JObj f1" "u2 = JObj f2" by blast
  with assms have "public f1 = public f2" by simp
  then show ?thesis unfolding u using stringify_scrub_JObj[of f1] stringify_scrub_JObj[of f2]
    by (simp add: scrub_JObj defined_scrubbed)
next
  case False
  with assms have eq: "u1 = u2" by (cases u1; cases u2) auto
  show ?thesis unfolding eq by (cases u2) (auto simp: scrub_def)
qed

lemma mapE_Inr:
  "mapE f xs = Inr ys \<Longrightarrow> list_all2 (\<lambda>x y. f x = Inr y) xs ys"
  by (induction xs arbitrary: ys) (auto split: sum.splits)

lemma mapE_scrub_same_public:
  assumes "list_all2 same_public us1 us2"
  shows "(\<exists>e. mapE scrub us1 = Inl e \<and> mapE scrub us2 = Inl e) \<or>
         (\<exists>s1 s2. mapE scrub us1 = Inr s1 \<and> mapE scrub us2 = Inr s2 \<and>
            stringify (JArr s1) = stringify (JArr s2))"
  using assms
proof (induction rule: list_all2_induct)
  case Nil
  then show ?case by simp
next
  case (Cons u1 us1 u2 us2)
  from same_public_scrub[OF Cons.hyps(1)] show ?case
  proof (elim disjE exE conjE)
    fix e assume "scrub u1 = Inl e" "scrub u2 = Inl e"
    then show ?thesis by simp
  next
    fix s1 s2 assume h: "scrub u1 = Inr s1" "scrub u2 = Inr s2"
      "stringify s1 = stringify s2" "(s1 = JUndefined) = (s2 = JUndefined)"
    from Cons.IH show ?thesis
    proof (elim disjE exE conjE)
      fix e assume "mapE scrub us1 = Inl e" "mapE scrub us2 = Inl e"
      with h show ?thesis by simp
    next
      fix t1 t2 assume t: "mapE scrub us1 = Inr t1" "mapE scrub us2 = Inr t2"
        "stringify (JArr t1) = stringify (JArr t2)"
      have "stringify (JArr (s1 # t1)) = stringify (JArr (s2 # t2))"
        using h(3,4) t(3) by simp
      with h t show ?thesis by (simp del: stringify.simps)
    qed
  qed
qed

lemma mapE_scrub_total:
  "\<forall>u \<in> set us. \<not> nullish u \<Longrightarrow> \<exists>s. mapE scrub us = Inr s"
proof (induction us)
  case Nil
  then show ?case by simp
next
  case (Cons u us)
  then obtain s where "mapE scrub us = Inr s" by auto
  moreover from Cons.prems have "\<exists>u'. scrub u = Inr u'"
    by (cases u) (auto simp: scrub_def nullish_def)
  ultimately show ?case by auto
qed

subsection \<open>The two user controllers\<close>

lemma getAllUsers_Inr:
  assumes "getAllUsers (st, data) = Inr (st', body)"
  obtains fs users scrubbed where "data = JObj fs" "map_of fs ''message'' = Some (JArr users)"
    "mapE scrub users = Inr scrubbed" "st' = st"
    "body = stringify (JObj (set_prop ''message'' (JArr scrubbed) fs))"
  using assms
  by (cases data)
     (auto simp: getAllUsers_def member_def nullish_def with_message_def
           split: sum.splits jsval.splits option.splits)

lemma getAllUsers_hides:
  assumes "getAllUsers (st, data) = Inr (st', body)"
  shows "st' = st \<and> (\<exists>us. field body ''message'' = JArr us \<and>
           (\<forall>u \<in> set us. \<not> has_key u ''password'' \<and> \<not> has_key u ''__v''))"
proof -
  from assms obtain fs users scrubbed where d: "data = JObj fs"
    "mapE scrub users = Inr scrubbed" "st' = st"
    "body = stringify (JObj (set_prop ''message'' (JArr scrubbed) fs))"
    by (rule getAllUsers_Inr)
  let ?us = "map (\<lambda>v. if v = JUndefined then JNull else stringify v) scrubbed"
  have "field body ''message'' = stringify (JArr scrubbed)"
    unfolding d(4) by (rule field_stringify_set_prop) simp
  then have m: "field body ''message'' = JArr ?us"
    by simp
  have "\<not> has_key u ''password'' \<and> \<not> has_key u ''__v''" if "u \<in> set ?us" for u
  proof -
    from that obtain s where s: "s \<in> set scrubbed"
      "u = (if s = JUndefined then JNull else stringify s)"
      by auto
    from mapE_Inr[OF d(2)] s(1) obtain x where "scrub x = Inr s"
      unfolding list_all2_conv_all_nth in_set_conv_nth by auto
    then show ?thesis using has_key_stringify_scrub[of x s] s(2) by (auto simp: has_key_def)
  qed
  with m d(3) show ?thesis by blast
qed

lemma getUserById_hides:
  assumes "getUserById (st, data) = Inr (st', body)"
  shows "st' = st \<and> \<not> has_key (field body ''message'') ''password''
           \<and> \<not> has_key (field body ''message'') ''__v''"
proof -
  from assms obtain fs user scrubbed where d: "data = JObj fs" "scrub user = Inr scrubbed"
    "st' = st" "body = stringify (JObj (set_prop ''message'' scrubbed fs))"
    by (cases data)
       (auto simp: getUserById_def member_def nullish_def with_message_def scrub_def
             split: sum.splits jsval.splits option.splits)
  show ?thesis
  proof (cases "scrubbed = JUndefined")
    case True
    with d(2) show ?thesis by (cases user) (auto simp: scrub_def)
  next
    case False
    then have "field body ''message'' = stringify scrubbed"
      unfolding d(4) by (rule field_stringify_set_prop)
    with has_key_stringify_scrub[OF d(2)] d(3) show ?thesis by simp
  qed
qed

lemma getAllUsers_stored:
  "getAllUsers (st, JObj (set_prop ''message'' (JArr us) fs)) =
     (case mapE scrub us of
        Inl e \<Rightarrow> Inl e
      | Inr s \<Rightarrow> Inr (st, stringify (JObj (set_prop ''message'' (JArr s) fs))))"
  by (simp add: getAllUsers_def member_def nullish_def with_message_def field_set_prop
        set_prop_twice del: field.simps stringify.simps split: sum.splits)

lemma getUserById_stored:
  "getUserById (st, JObj (set_prop ''message'' u fs)) =
     (case scrub u of
        Inl e \<Rightarrow> Inl e
      | Inr s \<Rightarrow> Inr (st, stringify (JObj (set_prop ''message'' s fs))))"
  by (simp add: getUserById_def member_def nullish_def with_message_def field_set_prop
        set_prop_twice del: field.simps stringify.simps split: sum.splits)

lemma getAllUsers_independent:
  assumes "list_all2 same_public us1 us2"
  shows "getAllUsers (st, JObj (set_prop ''message'' (JArr us1) fs)) =
         getAllUsers (st, JObj (set_prop ''message'' (JArr us2) fs))"
proof -
  from mapE_scrub_same_public[OF assms] show ?thesis
  proof (elim disjE exE conjE)
    fix e assume "mapE scrub us1 = Inl e" "mapE scrub us2 = Inl e"
    then show ?thesis by (simp add: getAllUsers_stored)
  next
    fix s1 s2 assume s: "mapE scrub us1 = Inr s1" "mapE scrub us2 = Inr s2"
      "stringify (JArr s1) = stringify (JArr s2)"
    have "stringify (JObj (set_prop ''message'' (JArr s1) fs)) =
          stringify (JObj (set_prop ''message'' (JArr s2) fs))"
      by (rule stringify_set_prop_cong) (use s(3) in simp_all)
    with s show ?thesis by (simp add: getAllUsers_stored del: stringify.simps)
  qed
qed

lemma getUserById_independent:
  assumes "same_public u1 u2"
  shows "getUserById (st, JObj (set_prop ''message'' u1 fs)) =
         getUserById (st, JObj (set_prop ''message'' u2 fs))"
proof -
  from same_public_scrub[OF assms] show ?thesis
  proof (elim disjE exE conjE)
    fix e assume "scrub u1 = Inl e" "scrub u2 = Inl e"
    then show ?thesis by (simp add: getUserById_stored)
  next
    fix s1 s2 assume s: "scrub u1 = Inr s1" "scrub u2 = Inr s2"
      "stringify s1 = stringify s2" "(s1 = JUndefined) = (s2 = JUndefined)"
    have "stringify (JObj (set_prop ''message'' s1 fs)) =
          stringify (JObj (set_prop ''message'' s2 fs))"
      by (rule stringify_set_prop_cong) (use s in simp_all)
    with s show ?thesis by (simp add: getUserById_stored del: stringify.simps)
  qed
qed

lemma getAllUsers_answers:
  assumes "\<forall>u \<in> set us. \<not> nullish u"
  shows "\<exists>body. getAllUsers (st, JObj (set_prop ''message'' (JArr us) fs)) = Inr (st, body)"
proof -
  from mapE_scrub_total[OF assms] obtain s where "mapE scrub us = Inr s" ..
  then show ?thesis by (simp add: getAllUsers_stored del: stringify.simps)
qed

lemma getUserById_answers:
  assumes "\<not> nullish u"
  shows "\<exists>body. getUserById (st, JObj (set_prop ''message'' u fs)) = Inr (st, body)"
proof -
  from assms obtain s where "scrub u = Inr s"
    by (cases u) (auto simp: scrub_def nullish_def)
  then show ?thesis by (simp add: getUserById_stored del: stringify.simps)
qed

section \<open>Properties of the quantity engine as specified\<close>

subsection \<open>Tokens\<close>
























subsection \<open>Numbers in words\<close>

lemma show_nat_nonempty: "show_nat n \<noteq> []"
  by (subst show_nat.simps) simp

lemma floor_whole_plus:
  fixes x :: rat
  assumes "0 \<le> x" "x < 1"
  shows "\<lfloor>of_nat w + x\<rfloor> = int w"
  using assms by (simp add: floor_unique)

lemma match_halves: "match_fraction (1 / 2) [2, 3, 4, 8] = Some (1, 2)"
  by code_simp

lemma match_thirds:
  "match_fraction (1 / 3) [2, 3, 4, 8] = Some (1, 3)"
  "match_fraction (2 / 3) [2, 3, 4, 8] = Some (2, 3)"
  by code_simp+

lemma match_quarters:
  "match_fraction (1 / 4) [2, 3, 4, 8] = Some (1, 4)"
  "match_fraction (3 / 4) [2, 3, 4, 8] = Some (3, 4)"
  by code_simp+

lemma match_eighths:
  "match_fraction (1 / 8) [2, 3, 4, 8] = Some (1, 8)"
  "match_fraction (3 / 8) [2, 3, 4, 8] = Some (3, 8)"
  "match_fraction (5 / 8) [2, 3, 4, 8] = Some (5, 8)"
  "match_fraction (7 / 8) [2, 3, 4, 8] = Some (7, 8)"
  by code_simp+


lemma proper_fractions:
  assumes "d \<in> {2, 3, 4, 8}" "0 < n" "n < d"
  shows "(n, d) \<in> {(1, 2), (1, 3), (2, 3), (1, 4), (2, 4), (3, 4),
                   (1, 8), (2, 8), (3, 8), (4, 8), (5, 8), (6, 8), (7, 8 :: nat)}"
proof -
  from assms(1) consider "d = 2" | "d = 3" | "d = 4" | "d = 8" by auto
  then show ?thesis
  proof cases
    case 1 with assms(2,3) have "n = 1" by simp
    with 1 show ?thesis by simp
  next
    case 2 with assms(2,3) have "n = 1 \<or> n = 2" by auto
    with 2 show ?thesis by auto
  next
    case 3 with assms(2,3) have "n = 1 \<or> n = 2 \<or> n = 3" by auto
    with 3 show ?thesis by auto
  next
    case 4 with assms(2,3) have "n = 1 \<or> n = 2 \<or> n = 3 \<or> n = 4 \<or> n = 5 \<or> n = 6 \<or> n = 7" by auto
    with 4 show ?thesis by auto
  qed
qed

lemma match_supported:
  assumes "d \<in> {2, 3, 4, 8}" "0 < n" "n < d"
  shows "match_fraction (of_nat n / of_nat d) [2, 3, 4, 8] = Some (n div gcd n d, d div gcd n d)"
proof -
  have g: "gcd (2::nat) 4 = 2" "gcd (2::nat) 8 = 2" "gcd (4::nat) 8 = 4" "gcd (6::nat) 8 = 2"
          "gcd (2::nat) 3 = 1" "gcd (3::nat) 4 = 1" "gcd (3::nat) 8 = 1" "gcd (5::nat) 8 = 1"
          "gcd (7::nat) 8 = 1"
    by code_simp+
  from proper_fractions[OF assms] show ?thesis
    by (elim insertE emptyE)
       (simp_all add: g match_halves match_thirds match_quarters match_eighths
          del: match_fraction.simps)
qed

lemma fraction_text:
  assumes "d \<in> {2, 3, 4, 8}" "0 < n" "n < d"
  shows "number_text (of_nat w + of_nat n / of_nat d) =
           (if w = 0 then [] else show_nat w @ '' '') @
           show_nat (n div gcd n d) @ ''/'' @ show_nat (d div gcd n d)"
proof -
  let ?f = "of_nat n / of_nat d :: rat"
  from assms have d: "0 < d" by auto
  have f0: "0 \<le> ?f" by simp
  have f1: "?f < 1" using assms d by simp
  have fl: "\<lfloor>of_nat w + ?f\<rfloor> = int w" by (rule floor_whole_plus[OF f0 f1])
  have "d \<le> 8" using assms(1) by auto
  then have "rat_of_nat d \<le> 8" by (metis of_nat_le_iff of_nat_numeral)
  moreover have "1 \<le> rat_of_nat n" using assms(2) by simp
  ultimately have "1 / 8 \<le> ?f" using d
    by (simp add: field_simps)
  then have big: "\<not> \<bar>?f\<bar> < 1 / 1000000" using f0 by linarith
  have cop: "gcd (n div gcd n d) (d div gcd n d) = 1"
    using d by (simp add: div_gcd_coprime)
  show ?thesis
    unfolding number_text_def fl Let_def
    using big by (simp add: match_supported[OF assms] cop del: match_fraction.simps)
qed

lemma render_fraction:
  assumes "d \<in> {2, 3, 4, 8}" "0 < n" "n < d"
  shows "render (of_nat w + of_nat n / of_nat d) u =
           (if w = 0 then [] else show_nat w @ '' '') @
           show_nat (n div gcd n d) @ ''/'' @ show_nat (d div gcd n d) @ '' '' @ plural u"
proof -
  let ?t = "number_text (of_nat w + of_nat n / of_nat d)"
  have "2 \<le> length ?t"
    unfolding fraction_text[OF assms] using show_nat_nonempty[of "n div gcd n d"]
    by (cases "show_nat (n div gcd n d)") auto
  then have "?t \<noteq> ''1''" by auto
  then show ?thesis
    unfolding render_def Let_def by (simp add: fraction_text[OF assms])
qed

lemma show_nat_small: "n < 10 \<Longrightarrow> show_nat n = [show_digit n]"
  by (subst show_nat.simps) simp

lemma one_and_a_half: "plural u = ''cups'' \<Longrightarrow> render (3 / 2) u = ''1 1/2 cups''"
  using render_fraction[of 2 1 1 u] by (simp add: show_nat_small show_digit_def)




lemma show_digit_digit: "n < 10 \<Longrightarrow> is_digit (show_digit n)"
  unfolding show_digit_def is_digit_def by (rule nth_mem) simp

lemma show_nat_digits: "list_all is_digit (show_nat n)"
proof (induction n rule: show_nat.induct)
  case (1 n)
  show ?case
  proof (cases "n < 10")
    case True
    then have "show_nat n = [show_digit n]" by (rule show_nat_small)
    with show_digit_digit[OF True] show ?thesis by simp
  next
    case False
    have d: "is_digit (show_digit (n mod 10))" by (rule show_digit_digit) simp
    have "show_nat n = show_nat (n div 10) @ [show_digit (n mod 10)]"
      using False by (subst show_nat.simps) simp
    with d 1[OF False] show ?thesis by simp
  qed
qed

lemma slash_no_digit: "\<not> is_digit (CHR ''/'')"
  by (simp add: is_digit_def)

lemma no_slash_in_decimal2: "CHR ''/'' \<notin> set (decimal2 v)"
proof -
  let ?c = "nat (round (v * 100))"
  have a: "is_digit (show_digit (?c mod 100 div 10))" by (rule show_digit_digit) simp
  have b: "is_digit (show_digit (?c mod 10))" by (rule show_digit_digit) simp
  have "list_all (\<lambda>c. is_digit c \<or> c = CHR ''.'') (decimal2 v)"
    unfolding decimal2_def Let_def
    using show_nat_digits[of "?c div 100"] a b
    by (auto simp: list_all_iff)
  then show ?thesis using slash_no_digit by (auto simp: list_all_iff)
qed

lemma fraction_not_decimal:
  assumes "d \<in> {2, 3, 4, 8}" "0 < n" "n < d"
  shows "number_text (of_nat w + of_nat n / of_nat d) \<noteq> decimal2 (of_nat w + of_nat n / of_nat d)"
proof -
  have "CHR ''/'' \<in> set (number_text (of_nat w + of_nat n / of_nat d))"
    by (simp add: fraction_text[OF assms])
  with no_slash_in_decimal2 show ?thesis by metis
qed

subsection \<open>The decimal exponent\<close>

lemma digits10_pos: "0 < digits10 n"
  by (subst digits10.simps) simp

lemma digits10_bounds: "0 < n \<Longrightarrow> 10 ^ (digits10 n - 1) \<le> n \<and> n < 10 ^ digits10 n"
proof (induction n rule: digits10.induct)
  case (1 n)
  show ?case
  proof (cases "n < 10")
    case True
    then have "digits10 n = 1" by (subst digits10.simps) simp
    with True 1(2) show ?thesis by simp
  next
    case False
    then have d: "digits10 n = Suc (digits10 (n div 10))" by (subst digits10.simps) simp
    from False have "0 < n div 10" by simp
    from 1(1)[OF False this] have ih: "10 ^ (digits10 (n div 10) - 1) \<le> n div 10"
      "n div 10 < 10 ^ digits10 (n div 10)" by auto
    have p: "digits10 (n div 10) = Suc (digits10 (n div 10) - 1)"
      using digits10_pos[of "n div 10"] by simp
    have "10 ^ digits10 (n div 10) = 10 * 10 ^ (digits10 (n div 10) - 1)"
      by (subst p) simp
    also have "\<dots> \<le> 10 * (n div 10)" using ih(1) by simp
    also have "\<dots> \<le> n" by simp
    finally have lo: "10 ^ digits10 (n div 10) \<le> n" .
    from ih(2) have "n div 10 + 1 \<le> 10 ^ digits10 (n div 10)" by simp
    then have "10 * (n div 10 + 1) \<le> 10 * 10 ^ digits10 (n div 10)" by simp
    moreover have "n < 10 * (n div 10 + 1)" by presburger
    ultimately have hi: "n < 10 ^ Suc (digits10 (n div 10))" by simp
    from lo hi show ?thesis by (simp add: d)
  qed
qed

lemma exponent10_bracket:
  assumes "0 < x"
  shows "pow10 (exponent10 x) \<le> x \<and> x < pow10 (exponent10 x + 1)"
proof (cases "1 \<le> x")
  case True
  let ?n = "nat \<lfloor>x\<rfloor>"
  from True have n: "0 < ?n" by simp
  have "0 \<le> \<lfloor>x\<rfloor>" using True by simp
  then have nn: "rat_of_nat ?n = of_int \<lfloor>x\<rfloor>" by (simp add: of_nat_nat)
  have fl: "rat_of_nat ?n \<le> x" "x < rat_of_nat ?n + 1"
    unfolding nn by linarith+
  from digits10_bounds[OF n] have b: "10 ^ (digits10 ?n - 1) \<le> ?n" "?n < 10 ^ digits10 ?n"
    by auto
  have e: "exponent10 x = int (digits10 ?n) - 1" using True by (simp add: exponent10_def)
  have p: "0 < digits10 ?n" by (rule digits10_pos)
  have lo: "pow10 (int (digits10 ?n) - 1) = 10 ^ (digits10 ?n - 1)"
    using p by (simp add: pow10_def nat_diff_distrib')
  have hi: "pow10 (int (digits10 ?n) - 1 + 1) = 10 ^ digits10 ?n"
    by (simp add: pow10_def)
  have "(10::rat) ^ (digits10 ?n - 1) = rat_of_nat (10 ^ (digits10 ?n - 1))" by simp
  also have "\<dots> \<le> rat_of_nat ?n" using b(1) by (rule of_nat_mono)
  also have "\<dots> \<le> x" by (rule fl(1))
  finally have l: "(10::rat) ^ (digits10 ?n - 1) \<le> x" .
  from b(2) have "Suc ?n \<le> 10 ^ digits10 ?n" by (rule Suc_leI)
  then have "rat_of_nat (Suc ?n) \<le> rat_of_nat (10 ^ digits10 ?n)" by (rule of_nat_mono)
  moreover have "x < rat_of_nat (Suc ?n)" using fl(2) by simp
  ultimately have "x < rat_of_nat (10 ^ digits10 ?n)" by (rule less_le_trans[rotated])
  then have h: "x < (10::rat) ^ digits10 ?n" by simp
  show ?thesis unfolding e lo hi using l h by simp
next
  case False
  let ?y = "1 / x"
  define z where "z = \<lceil>?y\<rceil>"
  let ?k = "nat (z - 1)"
  from False assms have y: "1 < ?y" by simp
  then have "1 < z" unfolding z_def by (metis less_ceiling_iff of_int_1)
  then have c2: "2 \<le> z" by linarith
  then have k: "0 < ?k" by linarith
  have kc: "int ?k = z - 1" using c2 by linarith
  have "rat_of_int (int ?k) = rat_of_int (z - 1)" by (simp only: kc)
  then have kr: "rat_of_nat ?k = rat_of_int z - 1"
    by (simp only: of_int_of_nat_eq of_int_diff of_int_1)
  have "rat_of_int z - 1 < ?y" unfolding z_def by linarith
  then have k1: "rat_of_nat ?k < ?y" by (simp only: kr)
  have "?y \<le> rat_of_int z" unfolding z_def by (rule le_of_int_ceiling)
  then have "?y \<le> rat_of_nat ?k + 1" by (simp only: kr diff_add_cancel)
  then have k2: "?y \<le> rat_of_nat (Suc ?k)" by (simp only: of_nat_Suc add.commute)
  from digits10_bounds[OF k] have b: "10 ^ (digits10 ?k - 1) \<le> ?k" "?k < 10 ^ digits10 ?k"
    by auto
  have e: "exponent10 x = - int (digits10 ?k)" using False by (simp add: exponent10_def z_def)
  have p: "0 < digits10 ?k" by (rule digits10_pos)
  have lo: "pow10 (- int (digits10 ?k)) = 1 / 10 ^ digits10 ?k"
    using p by (simp add: pow10_def)
  have hi: "pow10 (- int (digits10 ?k) + 1) = 1 / 10 ^ (digits10 ?k - 1)"
    using p by (auto simp: pow10_def nat_diff_distrib' le_Suc_eq Suc_le_eq)
  from b(2) have "Suc ?k \<le> 10 ^ digits10 ?k" by (rule Suc_leI)
  then have "rat_of_nat (Suc ?k) \<le> rat_of_nat (10 ^ digits10 ?k)" by (rule of_nat_mono)
  moreover note k2
  ultimately have "?y \<le> rat_of_nat (10 ^ digits10 ?k)" by (rule order_trans[rotated])
  then have "?y \<le> 10 ^ digits10 ?k" by simp
  then have l: "1 / 10 ^ digits10 ?k \<le> x" using assms by (simp add: field_simps)
  have "(10::rat) ^ (digits10 ?k - 1) = rat_of_nat (10 ^ (digits10 ?k - 1))" by simp
  also have "\<dots> \<le> rat_of_nat ?k" using b(1) by (rule of_nat_mono)
  also have "\<dots> < ?y" by (rule k1)
  finally have "10 ^ (digits10 ?k - 1) < ?y" .
  then have h: "x < 1 / 10 ^ (digits10 ?k - 1)" using assms by (simp add: field_simps)
  show ?thesis unfolding e lo hi using l h by simp
qed

subsection \<open>The facade\<close>

lemma render_zero: "render 0 u = ''0 '' @ plural u"
  by (simp add: render_def number_text_def show_nat_small show_digit_def)

lemma parse_decimal_one_and_a_half: "parse_decimal ''1.5'' = Some (3 / 2)"
  by code_simp

lemma build_number:
  assumes "0 \<le> x" "resolve reg tok = Some u"
  shows "quantifiable_build reg (Some (Number x)) (Some tok) =
           Built \<lparr>readable = render x u,
                  normalized = round_sig4 (x * factorToBase u),
                  unit_token = token u\<rparr>"
  using assms by (simp add: quantifiable_build_def parse_def normalize_def)

lemma build_text:
  assumes "parse_decimal s = Some x" "0 \<le> x" "resolve reg tok = Some u"
  shows "quantifiable_build reg (Some (Text s)) (Some tok) =
           Built \<lparr>readable = render x u,
                  normalized = round_sig4 (x * factorToBase u),
                  unit_token = token u\<rparr>"
  using assms by (simp add: quantifiable_build_def parse_def normalize_def)

subsection \<open>Users: the password never leaves\<close>

text \<open>
  Claim C9. Whenever \<open>getAllUsers\<close> or \<open>getUserById\<close> sends a response, the status is the
  service's and no user in the body has a \<open>password\<close> or a \<open>__v\<close> property. Two results
  of the service whose users differ at most in those two properties get the same
  response (or the same error). A response is sent whenever the service hands
  back users that are not \<open>undefined\<close> or \<open>null\<close>.
\<close>

theorem user_responses_hide_password:
  "(getAllUsers (st, data) = Inr (st', body) \<longrightarrow>
      st' = st \<and> (\<exists>us. field body ''message'' = JArr us \<and>
         (\<forall>u \<in> set us. \<not> has_key u ''password'' \<and> \<not> has_key u ''__v'')))
   \<and> (getUserById (st, data) = Inr (st', body) \<longrightarrow>
      st' = st \<and> \<not> has_key (field body ''message'') ''password''
              \<and> \<not> has_key (field body ''message'') ''__v'')
   \<and> (list_all2 same_public us1 us2 \<longrightarrow>
      getAllUsers (st, JObj (set_prop ''message'' (JArr us1) fs)) =
      getAllUsers (st, JObj (set_prop ''message'' (JArr us2) fs)))
   \<and> (same_public u1 u2 \<longrightarrow>
      getUserById (st, JObj (set_prop ''message'' u1 fs)) =
      getUserById (st, JObj (set_prop ''message'' u2 fs)))
   \<and> ((\<forall>u \<in> set us1. \<not> nullish u) \<longrightarrow>
      (\<exists>sent. getAllUsers (st, JObj (set_prop ''message'' (JArr us1) fs)) = Inr (st, sent)))
   \<and> (\<not> nullish u1 \<longrightarrow>
      (\<exists>sent. getUserById (st, JObj (set_prop ''message'' u1 fs)) = Inr (st, sent)))"
proof (intro conjI impI)
  assume "getAllUsers (st, data) = Inr (st', body)"
  from getAllUsers_hides[OF this]
  show "st' = st" and "\<exists>us. field body ''message'' = JArr us \<and>
         (\<forall>u \<in> set us. \<not> has_key u ''password'' \<and> \<not> has_key u ''__v'')"
    by blast+
next
  assume "getUserById (st, data) = Inr (st', body)"
  from getUserById_hides[OF this]
  show "st' = st" and "\<not> has_key (field body ''message'') ''password''"
    and "\<not> has_key (field body ''message'') ''__v''"
    by blast+
next
  assume "list_all2 same_public us1 us2"
  then show "getAllUsers (st, JObj (set_prop ''message'' (JArr us1) fs)) =
      getAllUsers (st, JObj (set_prop ''message'' (JArr us2) fs))"
    by (rule getAllUsers_independent)
next
  assume "same_public u1 u2"
  then show "getUserById (st, JObj (set_prop ''message'' u1 fs)) =
      getUserById (st, JObj (set_prop ''message'' u2 fs))"
    by (rule getUserById_independent)
next
  assume "\<forall>u \<in> set us1. \<not> nullish u"
  then show "\<exists>sent. getAllUsers (st, JObj (set_prop ''message'' (JArr us1) fs)) = Inr (st, sent)"
    by (rule getAllUsers_answers)
next
  assume "\<not> nullish u1"
  then show "\<exists>sent. getUserById (st, JObj (set_prop ''message'' u1 fs)) = Inr (st, sent)"
    by (rule getUserById_answers)
qed

theorem user_responses_hide_password_witness:
  "getAllUsers (200, JObj [(''message'', JArr [sample_user ''hunter2''])])
     = Inr (200, JObj [(''message'', JArr [JObj [(''username'', JStr ''ada'')]])])
   \<and> getUserById (200, JObj [(''message'', sample_user ''hunter2'')])
     = Inr (200, JObj [(''message'', JObj [(''username'', JStr ''ada'')])])
   \<and> \<not> has_key (JObj [(''username'', JStr ''ada'')]) ''password''
   \<and> list_all2 same_public [sample_user ''hunter2''] [sample_user ''swordfish'']
   \<and> getAllUsers (200, JObj [(''message'', JArr [sample_user ''hunter2''])])
     = getAllUsers (200, JObj [(''message'', JArr [sample_user ''swordfish''])])
   \<and> getUserById (200, JObj [(''message'', sample_user ''hunter2'')])
     = getUserById (200, JObj [(''message'', sample_user ''swordfish'')])"
  using user_responses_hide_password
    [where st = 200 and st' = 200 and fs = "[]"
       and data = "JObj [(''message'', JArr [sample_user ''hunter2''])]"
       and body = "JObj [(''message'', JArr [JObj [(''username'', JStr ''ada'')]])]"
       and ?us1.0 = "[sample_user ''hunter2'']" and ?us2.0 = "[sample_user ''swordfish'']"
       and ?u1.0 = "sample_user ''hunter2''" and ?u2.0 = "sample_user ''swordfish''"]
  by (simp add: getAllUsers_def getUserById_def member_def nullish_def scrub_def
        with_message_def set_prop_def sample_user_def public_def has_key_def)

subsection \<open>Recipes: an id that is not an ObjectID\<close>

text \<open>
  Claim C10. For every id that is not exactly 24 hexadecimal characters (in either
  case), \<open>change\<close> and \<open>discard\<close> answer with status 404 and leave the database as it
  was: the documents are the same and no call to the model was made.
\<close>

theorem invalid_id_is_404_without_database_call:
  assumes "\<not> objectIdIsValid rid"
  shows "status (fst (change env d rid json)) = 404 \<and> snd (change env d rid json) = d \<and>
         status (fst (discard env d rid)) = 404 \<and> snd (discard env d rid) = d"
  using assms by (simp add: change_def discard_def Let_def)

theorem invalid_id_is_404_without_database_call_witness:
  "\<not> objectIdIsValid ''61f0c2a4b9d3e5f6a7b8c9dg'' \<and>
   status (fst (change sample_env empty_db ''61f0c2a4b9d3e5f6a7b8c9dg'' [])) = 404 \<and>
   snd (change sample_env empty_db ''61f0c2a4b9d3e5f6a7b8c9dg'' []) = empty_db \<and>
   status (fst (discard sample_env empty_db ''61f0c2a4b9d3e5f6a7b8c9dg'')) = 404 \<and>
   snd (discard sample_env empty_db ''61f0c2a4b9d3e5f6a7b8c9dg'') = empty_db"
proof -
  have h: "\<not> objectIdIsValid ''61f0c2a4b9d3e5f6a7b8c9dg''"
    by (simp add: objectIdIsValid_def hexChar_def)
  from h invalid_id_is_404_without_database_call
         [OF h, of sample_env empty_db "[]"]
  show ?thesis by simp
qed

subsection \<open>Recipes: a quantity of zero\<close>

lemma backendQuantifiable_fields:
  "\<not> nullish r \<Longrightarrow>
   backendQuantifiable r =
     Inr (JObj [(''readable'', field r ''readable''), (''numeric'', field r ''normalized''),
                (''unit'', field r ''units'')])"
  by (simp add: backendQuantifiable_def)

lemma mapQuantifiable_zero:
  "mapQuantifiable build (JObj [(''quantity'', JNum 0), (''unit'', unit)]) = Inr JUndefined"
  by (simp add: mapQuantifiable_def)

lemma mapQuantifiable_builds:
  assumes "truthy input" "truthy (field input ''quantity'')" "truthy (field input ''unit'')"
    and "build (field input ''quantity'') (field input ''unit'') = Inr r" "\<not> nullish r"
  shows "mapQuantifiable build input =
     Inr (JObj [(''readable'', field r ''readable''), (''numeric'', field r ''normalized''),
                (''unit'', field r ''units'')])"
  using assms by (simp add: mapQuantifiable_def backendQuantifiable_fields)

lemma mapQuantifiable_route_builds:
  assumes "truthy input"
    and "build (field input ''quantity'') (field input ''unit'') = Inr r" "\<not> nullish r"
  shows "mapQuantifiable_route build input =
     Inr (JObj [(''readable'', field r ''readable''), (''numeric'', field r ''normalized''),
                (''unit'', field r ''units'')])"
  using assms by (simp add: mapQuantifiable_route_def backendQuantifiable_fields)

lemma cup_build_zero:
  "cup_build (JNum 0) (JStr ''cup'') =
     Inr (JObj [(''readable'', JStr ''0 cups''), (''normalized'', JNum 0),
                (''units'', JStr ''cup'')])"
  by (simp add: cup_build_def render_zero round_sig4_def cup_def)

lemma cup_build_one_and_a_half:
  "cup_build (JNum (3 / 2)) (JStr ''cup'') =
     Inr (JObj [(''readable'', JStr ''1 1/2 cups''), (''normalized'', JNum (3549 / 10)),
                (''units'', JStr ''cup'')])"
proof -
  have r: "round_sig4 (3 / 2 * factorToBase cup) = 3549 / 10"
    unfolding cup_def by code_simp
  have t: "render (3 / 2) cup = ''1 1/2 cups''"
    by (rule one_and_a_half) (simp add: cup_def)
  show ?thesis unfolding cup_build_def jsval.case r t ..
qed

text \<open>
  Claim C4, at the input where the code departs from it. Zero cups renders as
  \<open>0 cups\<close>, and a \<open>build\<close> that renders so returns that for value 0. The recipe
  controller's \<open>mapQuantifiable\<close> nevertheless returns \<open>undefined\<close> for
  \<open>{ quantity: 0, unit: "cup" }\<close>, as it does when there is no quantity: its test of
  \<open>input.quantity\<close> fails on 0, and \<open>build\<close> is not called. The recipes route's
  \<open>mapQuantifiable\<close> returns the rendering for the same input, and the controller's
  does for a quantity of one and a half.
\<close>

theorem zero_quantity_is_dropped:
  "render 0 cup = ''0 cups''
   \<and> cup_build (JNum 0) (JStr ''cup'') =
       Inr (JObj [(''readable'', JStr ''0 cups''), (''normalized'', JNum 0),
                  (''units'', JStr ''cup'')])
   \<and> mapQuantifiable cup_build (JObj [(''quantity'', JNum 0), (''unit'', JStr ''cup'')])
       = Inr JUndefined
   \<and> mapQuantifiable cup_build (JObj [(''quantity'', JNum 0), (''unit'', JStr ''cup'')])
       = mapQuantifiable cup_build JUndefined
   \<and> mapQuantifiable_route cup_build (JObj [(''quantity'', JNum 0), (''unit'', JStr ''cup'')])
       = Inr (JObj [(''readable'', JStr ''0 cups''), (''numeric'', JNum 0),
                    (''unit'', JStr ''cup'')])
   \<and> mapQuantifiable cup_build (JObj [(''quantity'', JNum (3 / 2)), (''unit'', JStr ''cup'')])
       = Inr (JObj [(''readable'', JStr ''1 1/2 cups''), (''numeric'', JNum (3549 / 10)),
                    (''unit'', JStr ''cup'')])"
proof (intro conjI)
  show "render 0 cup = ''0 cups''"
    by (simp add: render_zero cup_def)
  show "cup_build (JNum 0) (JStr ''cup'') =
       Inr (JObj [(''readable'', JStr ''0 cups''), (''normalized'', JNum 0),
                  (''units'', JStr ''cup'')])"
    by (rule cup_build_zero)
  show zero: "mapQuantifiable cup_build (JObj [(''quantity'', JNum 0), (''unit'', JStr ''cup'')])
       = Inr JUndefined"
    by (rule mapQuantifiable_zero)
  have "mapQuantifiable cup_build JUndefined = Inr JUndefined"
    by (simp add: mapQuantifiable_def)
  with zero
  show "mapQuantifiable cup_build (JObj [(''quantity'', JNum 0), (''unit'', JStr ''cup'')])
       = mapQuantifiable cup_build JUndefined"
    by simp
  have "mapQuantifiable_route cup_build (JObj [(''quantity'', JNum 0), (''unit'', JStr ''cup'')])
        = Inr (JObj [(''readable'', field (JObj [(''readable'', JStr ''0 cups''),
                        (''normalized'', JNum 0), (''units'', JStr ''cup'')]) ''readable''),
                     (''numeric'', field (JObj [(''readable'', JStr ''0 cups''),
                        (''normalized'', JNum 0), (''units'', JStr ''cup'')]) ''normalized''),
                     (''unit'', field (JObj [(''readable'', JStr ''0 cups''),
                        (''normalized'', JNum 0), (''units'', JStr ''cup'')]) ''units'')])"
    by (rule mapQuantifiable_route_builds) (simp_all add: cup_build_zero nullish_def)
  then show "mapQuantifiable_route cup_build
               (JObj [(''quantity'', JNum 0), (''unit'', JStr ''cup'')])
       = Inr (JObj [(''readable'', JStr ''0 cups''), (''numeric'', JNum 0),
                    (''unit'', JStr ''cup'')])"
    by simp
  have "mapQuantifiable cup_build (JObj [(''quantity'', JNum (3 / 2)), (''unit'', JStr ''cup'')])
        = Inr (JObj [(''readable'', field (JObj [(''readable'', JStr ''1 1/2 cups''),
                        (''normalized'', JNum (3549 / 10)), (''units'', JStr ''cup'')]) ''readable''),
                     (''numeric'', field (JObj [(''readable'', JStr ''1 1/2 cups''),
                        (''normalized'', JNum (3549 / 10)), (''units'', JStr ''cup'')]) ''normalized''),
                     (''unit'', field (JObj [(''readable'', JStr ''1 1/2 cups''),
                        (''normalized'', JNum (3549 / 10)), (''units'', JStr ''cup'')]) ''units'')])"
    by (rule mapQuantifiable_builds) (simp_all add: cup_build_one_and_a_half nullish_def)
  then show "mapQuantifiable cup_build
               (JObj [(''quantity'', JNum (3 / 2)), (''unit'', JStr ''cup'')])
       = Inr (JObj [(''readable'', JStr ''1 1/2 cups''), (''numeric'', JNum (3549 / 10)),
                    (''unit'', JStr ''cup'')])"
    by simp
qed

subsection \<open>The registry finds a unit under every spelling of its aliases\<close>




subsection \<open>Supported fractions are written as fractions\<close>

text \<open>
  Claim C2. A value that is a whole part \<open>w\<close> plus a fraction \<open>n/d\<close> with \<open>d\<close> among 2, 3,
  4, 8 and \<open>0 < n < d\<close> is rendered in the fraction form: the whole part (left out when
  zero), the fraction in lowest terms, and the unit's plural; that text is not the
  decimal fallback, and it is the readable text \<open>build\<close> returns for the value with any
  token that resolves to the unit. In particular, where \<open>cup\<close> resolves to a unit whose
  plural is \<open>cups\<close>, \<open>build(1.5, "cup")\<close> returns the readable text \<open>1 1/2 cups\<close>, for the
  number and for the string \<open>1.5\<close> alike.
\<close>

theorem render_supported_fraction:
  assumes "d \<in> {2, 3, 4, 8}" "0 < n" "n < d"
  shows "render (of_nat w + of_nat n / of_nat d) u =
           (if w = 0 then [] else show_nat w @ '' '') @
           show_nat (n div gcd n d) @ ''/'' @ show_nat (d div gcd n d) @ '' '' @ plural u
         \<and> number_text (of_nat w + of_nat n / of_nat d) \<noteq> decimal2 (of_nat w + of_nat n / of_nat d)
         \<and> (resolve reg tok = Some u \<longrightarrow>
              quantifiable_build reg (Some (Number (of_nat w + of_nat n / of_nat d))) (Some tok) =
                Built \<lparr>readable =
                         (if w = 0 then [] else show_nat w @ '' '') @
                         show_nat (n div gcd n d) @ ''/'' @ show_nat (d div gcd n d) @
                         '' '' @ plural u,
                       normalized =
                         round_sig4 ((of_nat w + of_nat n / of_nat d) * factorToBase u),
                       unit_token = token u\<rparr>)
         \<and> (resolve reg ''cup'' = Some u \<and> plural u = ''cups'' \<longrightarrow>
              quantifiable_build reg (Some (Number (3 / 2))) (Some ''cup'') =
                Built \<lparr>readable = ''1 1/2 cups'',
                       normalized = round_sig4 (3 / 2 * factorToBase u),
                       unit_token = token u\<rparr> \<and>
              quantifiable_build reg (Some (Text ''1.5'')) (Some ''cup'') =
                Built \<lparr>readable = ''1 1/2 cups'',
                       normalized = round_sig4 (3 / 2 * factorToBase u),
                       unit_token = token u\<rparr>)"
proof (intro conjI impI)
  let ?v = "of_nat w + of_nat n / of_nat d :: rat"
  show form: "render ?v u =
           (if w = 0 then [] else show_nat w @ '' '') @
           show_nat (n div gcd n d) @ ''/'' @ show_nat (d div gcd n d) @ '' '' @ plural u"
    by (rule render_fraction[OF assms])
  show "number_text ?v \<noteq> decimal2 ?v"
    by (rule fraction_not_decimal[OF assms])
  have nonneg: "0 \<le> ?v" by simp
  show "quantifiable_build reg (Some (Number ?v)) (Some tok) =
                Built \<lparr>readable =
                         (if w = 0 then [] else show_nat w @ '' '') @
                         show_nat (n div gcd n d) @ ''/'' @ show_nat (d div gcd n d) @
                         '' '' @ plural u,
                       normalized = round_sig4 (?v * factorToBase u),
                       unit_token = token u\<rparr>"
    if "resolve reg tok = Some u"
    using build_number[OF nonneg that] by (simp only: form)
  have p: "(0::rat) \<le> 3 / 2" by simp
  show "quantifiable_build reg (Some (Number (3 / 2))) (Some ''cup'') =
                Built \<lparr>readable = ''1 1/2 cups'',
                       normalized = round_sig4 (3 / 2 * factorToBase u),
                       unit_token = token u\<rparr>"
    if h: "resolve reg ''cup'' = Some u \<and> plural u = ''cups''"
  proof -
    from h have t: "render (3 / 2) u = ''1 1/2 cups''" by (intro one_and_a_half) simp
    from h have r: "resolve reg ''cup'' = Some u" by simp
    from build_number[OF p r] show ?thesis by (simp only: t)
  qed
  show "quantifiable_build reg (Some (Text ''1.5'')) (Some ''cup'') =
                Built \<lparr>readable = ''1 1/2 cups'',
                       normalized = round_sig4 (3 / 2 * factorToBase u),
                       unit_token = token u\<rparr>"
    if h: "resolve reg ''cup'' = Some u \<and> plural u = ''cups''"
  proof -
    from h have t: "render (3 / 2) u = ''1 1/2 cups''" by (intro one_and_a_half) simp
    from h have r: "resolve reg ''cup'' = Some u" by simp
    from build_text[OF parse_decimal_one_and_a_half p r] show ?thesis by (simp only: t)
  qed
qed

theorem render_supported_fraction_witness:
  "(8::nat) \<in> {2, 3, 4, 8} \<and> (0::nat) < 6 \<and> (6::nat) < 8
   \<and> render (2 + 6 / 8) cup = ''2 3/4 cups''
   \<and> resolve [cup, millilitre] ''cup'' = Some cup \<and> plural cup = ''cups''
   \<and> quantifiable_build [cup, millilitre] (Some (Number (3 / 2))) (Some ''cup'') =
       Built \<lparr>readable = ''1 1/2 cups'', normalized = 3549 / 10, unit_token = ''cup''\<rparr>
   \<and> quantifiable_build [cup, millilitre] (Some (Text ''1.5'')) (Some ''cup'') =
       Built \<lparr>readable = ''1 1/2 cups'', normalized = 3549 / 10, unit_token = ''cup''\<rparr>"
proof -
  have g: "gcd (6::nat) 8 = 2" by code_simp
  have h: "(8::nat) \<in> {2, 3, 4, 8}" "(0::nat) < 6" "(6::nat) < 8" by simp_all
  have r: "resolve [cup, millilitre] ''cup'' = Some cup"
    by (simp add: resolve_def lookup_def accepts_def normal_token_def trim_def lower_def
          is_space_def cup_def millilitre_def Let_def)
  have p: "plural cup = ''cups''" "token cup = ''cup''" by (simp_all add: cup_def)
  have n: "round_sig4 (3 / 2 * factorToBase cup) = 3549 / 10"
    unfolding cup_def by code_simp
  note inst = render_supported_fraction
                [OF h, of 2 cup "[cup, millilitre]" "''cup''"]
  from inst have a: "render (2 + 6 / 8) cup = ''2 3/4 cups''"
    by (simp add: g show_nat_small show_digit_def p)
  from inst r p(1)
  have b: "quantifiable_build [cup, millilitre] (Some (Number (3 / 2))) (Some ''cup'') =
             Built \<lparr>readable = ''1 1/2 cups'',
                    normalized = round_sig4 (3 / 2 * factorToBase cup),
                    unit_token = token cup\<rparr>"
    and c: "quantifiable_build [cup, millilitre] (Some (Text ''1.5'')) (Some ''cup'') =
             Built \<lparr>readable = ''1 1/2 cups'',
                    normalized = round_sig4 (3 / 2 * factorToBase cup),
                    unit_token = token cup\<rparr>"
    by blast+
  from a b c r h show ?thesis unfolding n p by blast
qed

end
